theory Spec2Isabelle
  imports Complex_Main "HOL-Library.Char_ord" "HOL-Library.List_Lexorder"
begin

section \<open>Data model of \<^verbatim>\<open>backend/main.py\<close>\<close>

text \<open>
  A movie is one JSON object of the catalog's \<^verbatim>\<open>results\<close> array. The recommender reads
  four of its keys; everything else is passed through. A text field without a value (JSON
  \<^verbatim>\<open>null\<close>, or a key this object lacks while another object of the page has it) is
  \<open>None\<close>: pandas holds \<^verbatim>\<open>None\<close>/\<^verbatim>\<open>NaN\<close> in that cell. All objects of a page share one
  schema, so a non-empty frame has the four columns.
\<close>

record movie =
  id' :: int
  title :: "string option"
  overview :: "string option"
  poster_path :: "string option"
  other_fields :: "(string \<times> string) list"

text \<open>
  \<^verbatim>\<open>movies_df\<close>: the rows in index order \<open>0..n-1\<close> (the default \<^verbatim>\<open>RangeIndex\<close>), and the
  column \<^verbatim>\<open>combined_features\<close> once line 65 has added it.
\<close>

record dataframe =
  movies :: "movie list"
  combined_features :: "string option list option"

text \<open>The three module-level globals of lines 28-30; \<open>None\<close> is Python's \<^verbatim>\<open>None\<close>.\<close>

record cache =
  movies_df :: "dataframe option"
  tfidf_matrix :: "real list list option"
  cosine_sim :: "real list list option"

definition initial :: cache where
  "initial = \<lparr>movies_df = None, tfidf_matrix = None, cosine_sim = None\<rparr>"

text \<open>
  The exceptions the modelled lines can raise. \<open>RequestError\<close> stands for whatever
  \<^verbatim>\<open>requests.get\<close> and \<^verbatim>\<open>response.json()["results"]\<close> raise.
\<close>

datatype exn = TypeError | IndexError | KeyError | ValueError | RequestError

text \<open>\<^verbatim>\<open>HTTPException(status_code=..., detail=str(e))\<close>; the detail is kept as the exception.\<close>

datatype http_exception = HTTPException (status_code: nat) (detail: exn)

text \<open>One entry of \<^verbatim>\<open>to_dict('records')\<close> over the four selected columns.\<close>

record recommendation =
  rec_id :: int
  rec_title :: "string option"
  rec_overview :: "string option"
  rec_poster_path :: "string option"

section \<open>Feature text (line 65)\<close>

text \<open>
  \<^verbatim>\<open>+\<close> on object columns: pandas adds the strings cell by cell and leaves \<^verbatim>\<open>NaN\<close>
  wherever an operand is null.
\<close>

fun str_add :: "string option \<Rightarrow> string option \<Rightarrow> string option" where
  "str_add (Some a) (Some b) = Some (a @ b)"
| "str_add _ _ = None"

definition feature_text :: "movie \<Rightarrow> string option" where
  "feature_text m = str_add (str_add (overview m) (Some '' '')) (title m)"

text \<open>A frame built from an empty list has no columns: \<^verbatim>\<open>movies_df['overview']\<close> raises.\<close>

definition combine_features :: "movie list \<Rightarrow> exn + string option list" where
  "combine_features ms = (if ms = [] then Inl KeyError else Inr (map feature_text ms))"

section \<open>The library calls of lines 68-72\<close>

text \<open>
  \<^verbatim>\<open>TfidfVectorizer(stop_words='english')\<close> with its defaults. The analyzer of the
  vectorizer (lower-casing, the token pattern \<^verbatim>\<open>(?u)\b\w\w+\b\<close>, the stop-word table) is
  library code over Unicode tables; it is the parameter \<open>analyzer\<close>, a function from a
  document to its tokens, and every general statement below holds for every such function.
  The vocabulary is the sorted set of all tokens; a cell is the term count times
  \<open>ln ((1 + n) / (1 + df)) + 1\<close>; every row is divided by its Euclidean norm unless that
  is zero.

  Scores are real numbers. The library computes in 64-bit floating point, so a value the
  model gives as 1 may come out as a neighbour of 1.0 there. The claims below state about
  scores only what rounding keeps: which entries are exactly zero, which entries are
  computed from the same operands, and the shape of the matrices.
\<close>

definition idf :: "nat \<Rightarrow> nat \<Rightarrow> real" where
  "idf n df = ln ((1 + real n) / (1 + real df)) + 1"

definition norm2 :: "real list \<Rightarrow> real" where
  "norm2 v = sqrt (sum_list (map (\<lambda>x. x * x) v))"

definition normalize_l2 :: "real list \<Rightarrow> real list" where
  "normalize_l2 v = (if norm2 v = 0 then v else map (\<lambda>x. x / norm2 v) v)"

definition doc_freq :: "string list list \<Rightarrow> string \<Rightarrow> nat" where
  "doc_freq toks w = length (filter (\<lambda>t. w \<in> set t) toks)"

definition tfidf_row :: "string list list \<Rightarrow> string list \<Rightarrow> string list \<Rightarrow> real list" where
  "tfidf_row toks vocab t =
     normalize_l2 (map (\<lambda>w. real (count_list t w) * idf (length toks) (doc_freq toks w)) vocab)"

text \<open>
  \<^verbatim>\<open>fit_transform\<close> raises \<^verbatim>\<open>ValueError\<close> on a \<^verbatim>\<open>NaN\<close> document ("np.nan is an invalid
  document") and on an empty vocabulary.
\<close>

definition fit_transform :: "(string \<Rightarrow> string list) \<Rightarrow> string option list \<Rightarrow> exn + real list list" where
  "fit_transform analyzer raw_documents =
     (case those raw_documents of
        None \<Rightarrow> Inl ValueError
      | Some docs \<Rightarrow>
          let toks = map analyzer docs;
              vocab = sort (remdups (concat toks))
          in if vocab = [] then Inl ValueError
             else Inr (map (tfidf_row toks vocab) toks))"

text \<open>
  \<^verbatim>\<open>cosine_similarity(X, Y)\<close>: both arguments are row-normalised (a zero row stays zero) and
  the result holds the dot product of every row of \<open>X\<close> with every row of \<open>Y\<close>.
\<close>

definition dot :: "real list \<Rightarrow> real list \<Rightarrow> real" where
  "dot u v = sum_list (map (\<lambda>(x, y). x * y) (zip u v))"

definition cosine_similarity :: "real list list \<Rightarrow> real list list \<Rightarrow> real list list" where
  "cosine_similarity X Y =
     map (\<lambda>x. map (\<lambda>y. dot (normalize_l2 x) (normalize_l2 y)) Y) X"

section \<open>The index build (lines 55-72)\<close>

text \<open>
  The globals are assigned one by one, as the statements run: \<^verbatim>\<open>movies_df\<close> at line 62,
  its new column at line 65, \<^verbatim>\<open>tfidf_matrix\<close> at line 69, \<^verbatim>\<open>cosine_sim\<close> at line 72.
  An exception leaves what was assigned before it. The outcome of
  \<^verbatim>\<open>fetch_popular_movies()\<close> is the parameter \<open>fetched\<close>.
\<close>

definition prepare_content_based_filtering ::
  "(string \<Rightarrow> string list) \<Rightarrow> exn + movie list \<Rightarrow> cache \<Rightarrow> (exn + unit) \<times> cache" where
  "prepare_content_based_filtering analyzer fetched st =
     (case fetched of
        Inl e \<Rightarrow> (Inl e, st)
      | Inr ms \<Rightarrow>
          let st1 = st\<lparr>movies_df := Some \<lparr>movies = ms, combined_features = None\<rparr>\<rparr> in
          (case combine_features ms of
             Inl e \<Rightarrow> (Inl e, st1)
           | Inr feats \<Rightarrow>
               let st2 = st1\<lparr>movies_df := Some \<lparr>movies = ms, combined_features = Some feats\<rparr>\<rparr> in
               (case fit_transform analyzer feats of
                  Inl e \<Rightarrow> (Inl e, st2)
                | Inr X \<Rightarrow>
                    let st3 = st2\<lparr>tfidf_matrix := Some X\<rparr> in
                    (Inr (), st3\<lparr>cosine_sim := Some (cosine_similarity X X)\<rparr>))))"

section \<open>The recommendation query (lines 99-121)\<close>

text \<open>\<^verbatim>\<open>sorted(xs, key=..., reverse=True)\<close>: descending, equal keys keep their order.\<close>

definition sorted_reverse :: "('a \<Rightarrow> real) \<Rightarrow> 'a list \<Rightarrow> 'a list" where
  "sorted_reverse key xs = sort_key (\<lambda>x. - key x) xs"

definition to_dict :: "movie \<Rightarrow> recommendation" where
  "to_dict m = \<lparr>rec_id = id' m, rec_title = title m, rec_overview = overview m,
               rec_poster_path = poster_path m\<rparr>"

text \<open>
  Line 103: the index label of the first row whose \<^verbatim>\<open>id\<close> equals \<^verbatim>\<open>movie_id\<close>;
  \<^verbatim>\<open>.index[0]\<close> raises when no row is selected, and a frame without columns has no
  \<^verbatim>\<open>id\<close>.
\<close>

definition find_idx :: "movie list \<Rightarrow> int \<Rightarrow> exn + nat" where
  "find_idx ms movie_id =
     (if ms = [] then Inl KeyError
      else (case filter (\<lambda>i. id' (ms ! i) = movie_id) [0..<length ms] of
              [] \<Rightarrow> Inl IndexError
            | idx # _ \<Rightarrow> Inr idx))"

text \<open>Lines 106-112: the ranked pairs, and the slice \<^verbatim>\<open>[1:6]\<close> of them.\<close>

definition ranked :: "real list \<Rightarrow> (nat \<times> real) list" where
  "ranked row = sorted_reverse snd (enumerate 0 row)"

definition top5 :: "real list \<Rightarrow> (nat \<times> real) list" where
  "top5 row = take 5 (drop 1 (ranked row))"

text \<open>Line 118: \<^verbatim>\<open>iloc\<close> raises on a position outside the frame.\<close>

definition iloc :: "movie list \<Rightarrow> nat list \<Rightarrow> exn + movie list" where
  "iloc ms positions =
     (if list_all (\<lambda>i. i < length ms) positions then Inr (map ((!) ms) positions)
      else Inl IndexError)"

text \<open>
  The body of the \<^verbatim>\<open>try\<close>. Subscripting a global that is still \<^verbatim>\<open>None\<close> raises
  \<^verbatim>\<open>TypeError\<close>; a row index outside the matrix raises \<^verbatim>\<open>IndexError\<close>.
\<close>

definition recommend :: "cache \<Rightarrow> int \<Rightarrow> exn + recommendation list" where
  "recommend st movie_id =
     (case movies_df st of
        None \<Rightarrow> Inl TypeError
      | Some df \<Rightarrow>
          (case find_idx (movies df) movie_id of
             Inl e \<Rightarrow> Inl e
           | Inr idx \<Rightarrow>
               (case cosine_sim st of
                  None \<Rightarrow> Inl TypeError
                | Some K \<Rightarrow>
                    if idx < length K then
                      (let sim_scores = top5 (K ! idx);
                           movie_indices = map fst sim_scores
                       in case iloc (movies df) movie_indices of
                            Inl e \<Rightarrow> Inl e
                          | Inr rows \<Rightarrow> Inr (map to_dict rows))
                    else Inl IndexError)))"

text \<open>
  The handler: every exception of the body becomes \<^verbatim>\<open>HTTPException(500, str(e))\<close>. Here
  the query is a function of the cache, which it hands back; that the statements of the
  body leave the cached objects alone is shown further down, on the query in memory.
\<close>

definition get_movie_recommendations ::
  "int \<Rightarrow> cache \<Rightarrow> (http_exception + recommendation list) \<times> cache" where
  "get_movie_recommendations movie_id st =
     (case recommend st movie_id of
        Inl e \<Rightarrow> (Inl (HTTPException 500 e), st)
      | Inr recs \<Rightarrow> (Inr recs, st))"

section \<open>The query on objects in memory\<close>

text \<open>
  Whether a query leaves the cached objects as they were depends on which expressions make
  a new object and which hand out a reference into an existing one. So the query is
  modelled a second time, on a memory of objects. A global holds a reference; an object
  is a frame, a selection of rows of a frame with their index labels, a boolean series, a
  matrix, a view of one row of a matrix (numpy's \<^verbatim>\<open>a[i]\<close> shares the buffer of
  \<^verbatim>\<open>a\<close>), a list of (index, score) tuples, a list of integers, a selection reduced to
  the four columns, or a list of dicts.
\<close>

type_synonym addr = nat

datatype object =
    Frame dataframe
  | Selection "(nat \<times> movie) list"
  | Series "bool list"
  | Matrix "real list list"
  | View addr nat
  | Pairs "(nat \<times> real) list"
  | Positions "nat list"
  | Projection "(nat \<times> recommendation) list"
  | Dicts "recommendation list"

record memory =
  movies_df_ref :: "addr option"
  tfidf_matrix_ref :: "addr option"
  cosine_sim_ref :: "addr option"
  objects :: "object list"

text \<open>A computation on the memory either raises or returns a value.\<close>

type_synonym 'a computation = "memory \<Rightarrow> (exn + 'a) \<times> memory"

definition return :: "'a \<Rightarrow> 'a computation" where
  "return x s = (Inr x, s)"

definition raise :: "exn \<Rightarrow> 'a computation" where
  "raise e s = (Inl e, s)"

definition bind :: "'a computation \<Rightarrow> ('a \<Rightarrow> 'b computation) \<Rightarrow> 'b computation" where
  "bind m f s = (case m s of (Inl e, s') \<Rightarrow> (Inl e, s') | (Inr x, s') \<Rightarrow> f x s')"

text \<open>A new object gets the next free address; the objects already there stay where they are.\<close>

definition alloc :: "object \<Rightarrow> addr computation" where
  "alloc obj s = (Inr (length (objects s)), s\<lparr>objects := objects s @ [obj]\<rparr>)"

definition load :: "addr \<Rightarrow> object computation" where
  "load a s = (if a < length (objects s) then (Inr (objects s ! a), s) else (Inl TypeError, s))"

text \<open>Reading a global; subscripting a global that is \<^verbatim>\<open>None\<close> raises \<^verbatim>\<open>TypeError\<close>.\<close>

definition global :: "(memory \<Rightarrow> addr option) \<Rightarrow> addr computation" where
  "global g s = (case g s of None \<Rightarrow> (Inl TypeError, s) | Some a \<Rightarrow> (Inr a, s))"

definition load_frame :: "addr \<Rightarrow> dataframe computation" where
  "load_frame a = bind (load a) (\<lambda>obj. case obj of Frame df \<Rightarrow> return df | _ \<Rightarrow> raise TypeError)"

definition load_matrix :: "addr \<Rightarrow> real list list computation" where
  "load_matrix a = bind (load a) (\<lambda>obj. case obj of Matrix K \<Rightarrow> return K | _ \<Rightarrow> raise TypeError)"

definition load_pairs :: "addr \<Rightarrow> (nat \<times> real) list computation" where
  "load_pairs a = bind (load a) (\<lambda>obj. case obj of Pairs xs \<Rightarrow> return xs | _ \<Rightarrow> raise TypeError)"

text \<open>\<^verbatim>\<open>movies_df['id'] == movie_id\<close>: a new boolean series; a frame without columns has no \<^verbatim>\<open>id\<close>.\<close>

definition id_equals :: "addr \<Rightarrow> int \<Rightarrow> addr computation" where
  "id_equals d movie_id =
     bind (load_frame d) (\<lambda>df.
       if movies df = [] then raise KeyError
       else alloc (Series (map (\<lambda>m. id' m = movie_id) (movies df))))"

text \<open>\<^verbatim>\<open>movies_df[mask]\<close>: a new frame of the selected rows, each with its index label.\<close>

definition getitem_mask :: "addr \<Rightarrow> addr \<Rightarrow> addr computation" where
  "getitem_mask d flags =
     bind (load_frame d) (\<lambda>df.
     bind (load flags) (\<lambda>obj. case obj of
         Series bs \<Rightarrow>
           if length bs = length (movies df)
           then alloc (Selection (filter (\<lambda>(label, m). bs ! label) (enumerate 0 (movies df))))
           else raise ValueError
       | _ \<Rightarrow> raise TypeError))"

text \<open>\<^verbatim>\<open>.index[0]\<close>: the label of the first selected row.\<close>

definition index_0 :: "addr \<Rightarrow> nat computation" where
  "index_0 sel =
     bind (load sel) (\<lambda>obj. case obj of
         Selection [] \<Rightarrow> raise IndexError
       | Selection ((label, _) # _) \<Rightarrow> return label
       | _ \<Rightarrow> raise TypeError)"

text \<open>\<^verbatim>\<open>cosine_sim[idx]\<close>: a view of row \<open>idx\<close>, no copy.\<close>

definition getitem_row :: "addr \<Rightarrow> nat \<Rightarrow> addr computation" where
  "getitem_row k idx =
     bind (load_matrix k) (\<lambda>K. if idx < length K then alloc (View k idx) else raise IndexError)"

text \<open>\<^verbatim>\<open>list(enumerate(view))\<close>: reads the row through the view into a new list of tuples.\<close>

definition list_enumerate :: "addr \<Rightarrow> addr computation" where
  "list_enumerate v =
     bind (load v) (\<lambda>obj. case obj of
         View k i \<Rightarrow> bind (load_matrix k) (\<lambda>K. alloc (Pairs (enumerate 0 (K ! i))))
       | _ \<Rightarrow> raise TypeError)"

text \<open>\<^verbatim>\<open>sorted(sim_scores, key=lambda x: x[1], reverse=True)\<close>: a new list.\<close>

definition sorted_list :: "addr \<Rightarrow> addr computation" where
  "sorted_list p = bind (load_pairs p) (\<lambda>xs. alloc (Pairs (sorted_reverse snd xs)))"

text \<open>\<^verbatim>\<open>sim_scores[1:6]\<close>: a new list.\<close>

definition slice_1_6 :: "addr \<Rightarrow> addr computation" where
  "slice_1_6 p = bind (load_pairs p) (\<lambda>xs. alloc (Pairs (take 5 (drop 1 xs))))"

text \<open>\<^verbatim>\<open>[i[0] for i in sim_scores]\<close>: a new list.\<close>

definition first_components :: "addr \<Rightarrow> addr computation" where
  "first_components p = bind (load_pairs p) (\<lambda>xs. alloc (Positions (map fst xs)))"

text \<open>\<^verbatim>\<open>movies_df.iloc[movie_indices]\<close>: a new frame of the rows at these positions.\<close>

definition iloc_rows :: "addr \<Rightarrow> addr \<Rightarrow> addr computation" where
  "iloc_rows d ps =
     bind (load_frame d) (\<lambda>df.
     bind (load ps) (\<lambda>obj. case obj of
         Positions positions \<Rightarrow>
           (case iloc (movies df) positions of
              Inl e \<Rightarrow> raise e
            | Inr rows \<Rightarrow> alloc (Selection (zip positions rows)))
       | _ \<Rightarrow> raise TypeError))"

text \<open>\<^verbatim>\<open>[['id', 'title', 'overview', 'poster_path']]\<close>: a new frame of the four columns.\<close>

definition getitem_columns :: "addr \<Rightarrow> addr computation" where
  "getitem_columns sel =
     bind (load sel) (\<lambda>obj. case obj of
         Selection rows \<Rightarrow> alloc (Projection (map (\<lambda>(label, m). (label, to_dict m)) rows))
       | _ \<Rightarrow> raise TypeError)"

text \<open>\<^verbatim>\<open>.to_dict('records')\<close>: a new list of dicts, which the handler returns.\<close>

definition to_dict_records :: "addr \<Rightarrow> recommendation list computation" where
  "to_dict_records pr =
     bind (load pr) (\<lambda>obj. case obj of
         Projection rows \<Rightarrow> bind (alloc (Dicts (map snd rows))) (\<lambda>_. return (map snd rows))
       | _ \<Rightarrow> raise TypeError)"

text \<open>The body of the \<^verbatim>\<open>try\<close>, statement by statement (lines 103-119).\<close>

definition recommend_in_memory :: "int \<Rightarrow> recommendation list computation" where
  "recommend_in_memory movie_id =
     bind (global movies_df_ref) (\<lambda>d.
     bind (id_equals d movie_id) (\<lambda>flags.
     bind (getitem_mask d flags) (\<lambda>selected.
     bind (index_0 selected) (\<lambda>idx.
     bind (global cosine_sim_ref) (\<lambda>k.
     bind (getitem_row k idx) (\<lambda>row.
     bind (list_enumerate row) (\<lambda>sim_scores.
     bind (sorted_list sim_scores) (\<lambda>sim_scores.
     bind (slice_1_6 sim_scores) (\<lambda>sim_scores.
     bind (first_components sim_scores) (\<lambda>movie_indices.
     bind (iloc_rows d movie_indices) (\<lambda>rows.
     bind (getitem_columns rows) (\<lambda>columns.
     to_dict_records columns))))))))))))"

definition get_movie_recommendations_in_memory ::
  "int \<Rightarrow> memory \<Rightarrow> (http_exception + recommendation list) \<times> memory" where
  "get_movie_recommendations_in_memory movie_id s =
     (case recommend_in_memory movie_id s of
        (Inl e, s') \<Rightarrow> (Inl (HTTPException 500 e), s')
      | (Inr recs, s') \<Rightarrow> (Inr recs, s'))"

text \<open>
  The cache that a memory holds: what each global refers to. A memory is well formed when
  each global that is set refers to an object of its kind.
\<close>

definition frame_at :: "memory \<Rightarrow> addr option \<Rightarrow> dataframe option" where
  "frame_at s r = (case r of
       None \<Rightarrow> None
     | Some a \<Rightarrow> (if a < length (objects s)
                  then (case objects s ! a of Frame df \<Rightarrow> Some df | _ \<Rightarrow> None) else None))"

definition matrix_at :: "memory \<Rightarrow> addr option \<Rightarrow> real list list option" where
  "matrix_at s r = (case r of
       None \<Rightarrow> None
     | Some a \<Rightarrow> (if a < length (objects s)
                  then (case objects s ! a of Matrix K \<Rightarrow> Some K | _ \<Rightarrow> None) else None))"

definition cache_of :: "memory \<Rightarrow> cache" where
  "cache_of s = \<lparr>movies_df = frame_at s (movies_df_ref s),
                 tfidf_matrix = matrix_at s (tfidf_matrix_ref s),
                 cosine_sim = matrix_at s (cosine_sim_ref s)\<rparr>"

definition well_formed :: "memory \<Rightarrow> bool" where
  "well_formed s \<longleftrightarrow>
     (movies_df_ref s = None \<or> frame_at s (movies_df_ref s) \<noteq> None) \<and>
     (tfidf_matrix_ref s = None \<or> matrix_at s (tfidf_matrix_ref s) \<noteq> None) \<and>
     (cosine_sim_ref s = None \<or> matrix_at s (cosine_sim_ref s) \<noteq> None)"

text \<open>A cache laid out in memory: one object for each global that is set.\<close>

definition memory_of :: "cache \<Rightarrow> memory" where
  "memory_of st =
     (let a = (case movies_df st of None \<Rightarrow> [] | Some df \<Rightarrow> [Frame df]);
          b = (case tfidf_matrix st of None \<Rightarrow> [] | Some X \<Rightarrow> [Matrix X]);
          c = (case cosine_sim st of None \<Rightarrow> [] | Some K \<Rightarrow> [Matrix K])
      in \<lparr>movies_df_ref = map_option (\<lambda>_. 0) (movies_df st),
          tfidf_matrix_ref = map_option (\<lambda>_. length a) (tfidf_matrix st),
          cosine_sim_ref = map_option (\<lambda>_. length a + length b) (cosine_sim st),
          objects = a @ b @ c\<rparr>)"

text \<open>
  One memory extends another when the globals hold the same references and every object
  of the first is, unchanged, at the same address in the second.
\<close>

definition extends :: "memory \<Rightarrow> memory \<Rightarrow> bool" where
  "extends s s' \<longleftrightarrow>
     movies_df_ref s' = movies_df_ref s \<and> tfidf_matrix_ref s' = tfidf_matrix_ref s \<and>
     cosine_sim_ref s' = cosine_sim_ref s \<and>
     take (length (objects s)) (objects s') = objects s"

definition frames :: "'a computation \<Rightarrow> bool" where
  "frames c \<longleftrightarrow> (\<forall>s. extends s (snd (c s)))"

section \<open>Reading the specification\<close>

text \<open>
  The handlers of lines 88-89, 96-97 and 120-121 answer every exception with status 500.
  A failure with that status is the generic one: its status tells it apart from no other
  failure.
\<close>

fun generic_failure :: "http_exception + 'a \<Rightarrow> bool" where
  "generic_failure (Inl e) = (status_code e = 500)"
| "generic_failure (Inr _) = False"

text \<open>
  The feature text as the specification words it: \<^verbatim>\<open>overview + " " + title\<close>, a missing
  field read as the empty string.
\<close>

definition spec_feature_text :: "movie \<Rightarrow> string" where
  "spec_feature_text m =
     (case overview m of None \<Rightarrow> [] | Some s \<Rightarrow> s) @ '' '' @
     (case title m of None \<Rightarrow> [] | Some s \<Rightarrow> s)"

section \<open>The analyzer on ASCII text\<close>

text \<open>
  For a document of ASCII characters the library's analyzer does this: fold \<^verbatim>\<open>A-Z\<close> to
  lower case, take the maximal runs of two or more word characters (letters, digits,
  underscore), drop the tokens of the stop-word table. It serves for the sample pages
  below, whose texts are ASCII; for other text the general statements take the analyzer
  as it is.
\<close>

definition ascii_lower :: "char \<Rightarrow> char" where
  "ascii_lower c = (case map_of (zip ''ABCDEFGHIJKLMNOPQRSTUVWXYZ'' ''abcdefghijklmnopqrstuvwxyz'') c of
                None \<Rightarrow> c | Some d \<Rightarrow> d)"

definition ascii_word_char :: "char \<Rightarrow> bool" where
  "ascii_word_char c = (c \<in> set ''abcdefghijklmnopqrstuvwxyzABCDEFGHIJKLMNOPQRSTUVWXYZ0123456789_'')"

definition emit :: "string \<Rightarrow> string list" where
  "emit run = (if 2 \<le> length run then [run] else [])"

fun findall :: "string \<Rightarrow> string \<Rightarrow> string list" where
  "findall run [] = emit run"
| "findall run (c # cs) =
     (if ascii_word_char c then findall (run @ [c]) cs else emit run @ findall [] cs)"

definition ascii_analyzer :: "string list \<Rightarrow> string \<Rightarrow> string list" where
  "ascii_analyzer english doc = filter (\<lambda>w. w \<notin> set english) (findall [] (map ascii_lower doc))"

section \<open>Sample data\<close>

text \<open>
  A few words of the stop-word table, and four catalog records: two with the same text, one whose text has no
  token (an empty overview and a title of single letters), one without an overview.
\<close>

definition english_sample :: "string list" where
  "english_sample = [''the'', ''and'', ''of'', ''it'']"

definition alpha :: movie where
  "alpha = \<lparr>id' = 1, title = Some ''Alpha'', overview = Some ''a hero saves the world'',
            poster_path = Some ''/alpha.jpg'', other_fields = [(''popularity'', ''9.5'')]\<rparr>"

definition beta :: movie where
  "beta = \<lparr>id' = 2, title = Some ''Alpha'', overview = Some ''a hero saves the world'',
           poster_path = None, other_fields = []\<rparr>"

definition gamma :: movie where
  "gamma = \<lparr>id' = 3, title = Some ''E.T.'', overview = Some '''',
            poster_path = Some ''/gamma.jpg'', other_fields = []\<rparr>"

definition delta :: movie where
  "delta = \<lparr>id' = 4, title = Some ''Delta'', overview = None,
            poster_path = Some ''/delta.jpg'', other_fields = []\<rparr>"

text \<open>The cache after the startup build on a fetched page.\<close>

abbreviation built :: "movie list \<Rightarrow> cache" where
  "built ms \<equiv> snd (prepare_content_based_filtering (ascii_analyzer english_sample) (Inr ms) initial)"

section \<open>Properties of the ranking\<close>

lemma insort_key_before:
  fixes x :: "nat \<times> real"
  assumes "sorted_wrt (\<lambda>a b. snd b < snd a \<or> (snd a = snd b \<and> fst a < fst b)) ys"
    and "\<forall>y\<in>set ys. fst x < fst y"
  shows "sorted_wrt (\<lambda>a b. snd b < snd a \<or> (snd a = snd b \<and> fst a < fst b))
           (insort_key (\<lambda>p. - snd p) x ys)"
  using assms
proof (induction ys)
  case Nil
  then show ?case by simp
next
  case (Cons y ys)
  show ?case
  proof (cases "snd y \<le> snd x")
    case True
    have "\<forall>z\<in>set (y # ys). snd z \<le> snd x"
      using Cons.prems(1) True by auto
    with Cons.prems True show ?thesis by (auto simp: less_le)
  next
    case False
    with Cons show ?thesis by (auto simp: set_insort_key)
  qed
qed

lemma sort_key_before:
  fixes xs :: "(nat \<times> real) list"
  assumes "sorted_wrt (\<lambda>a b. fst a < fst b) xs"
  shows "sorted_wrt (\<lambda>a b. snd b < snd a \<or> (snd a = snd b \<and> fst a < fst b))
           (sort_key (\<lambda>p. - snd p) xs)"
  using assms
proof (induction xs)
  case Nil
  then show ?case by simp
next
  case (Cons x xs)
  then show ?case by (auto intro!: insort_key_before)
qed

lemma sorted_wrt_enumerate: "sorted_wrt (\<lambda>a b. fst a < fst b) (enumerate n xs)"
proof -
  have "sorted_wrt (<) (map fst (enumerate n xs))"
    by (simp add: strict_sorted_iff)
  then show ?thesis unfolding sorted_wrt_map .
qed

lemma sorted_wrt_ranked:
  "sorted_wrt (\<lambda>a b. snd b < snd a \<or> (snd a = snd b \<and> fst a < fst b)) (ranked row)"
  unfolding ranked_def sorted_reverse_def
  by (rule sort_key_before) (rule sorted_wrt_enumerate)

lemma sorted_wrt_top5:
  "sorted_wrt (\<lambda>a b. snd b < snd a \<or> (snd a = snd b \<and> fst a < fst b)) (top5 row)"
  unfolding top5_def
  by (intro sorted_wrt_take sorted_wrt_drop sorted_wrt_ranked)

lemma length_ranked: "length (ranked row) = length row"
  by (simp add: ranked_def sorted_reverse_def)

lemma set_ranked: "set (ranked row) = set (enumerate 0 row)"
  by (simp add: ranked_def sorted_reverse_def)

lemma length_top5: "length (top5 row) = min 5 (length row - 1)"
  by (simp add: top5_def length_ranked)

lemma set_top5: "set (top5 row) \<subseteq> set (enumerate 0 row)"
proof -
  have "set (top5 row) \<subseteq> set (ranked row)"
    unfolding top5_def by (meson set_take_subset set_drop_subset subset_trans)
  then show ?thesis by (simp add: set_ranked)
qed

lemma pair_of_row:
  assumes "set L \<subseteq> set (enumerate 0 row)" and "p < length L"
  shows "fst (L ! p) < length row \<and> snd (L ! p) = row ! fst (L ! p)"
proof -
  obtain i s where eq: "L ! p = (i, s)"
    by (cases "L ! p")
  have "L ! p \<in> set (enumerate 0 row)"
    using assms nth_mem by blast
  then show ?thesis
    by (simp add: eq in_set_enumerate_eq)
qed

section \<open>Properties of the build and of the lookup\<close>

lemma those_Some: "those xs = Some ys \<Longrightarrow> xs = map Some ys"
  by (induction xs arbitrary: ys) (auto split: option.splits)

lemma fit_transform_Inr:
  assumes "fit_transform analyzer raw = Inr X"
  obtains docs where "raw = map Some docs"
    and "sort (remdups (concat (map analyzer docs))) \<noteq> []"
    and "X = map (tfidf_row (map analyzer docs)
                   (sort (remdups (concat (map analyzer docs)))))
               (map analyzer docs)"
  using assms
  by (auto simp: fit_transform_def Let_def dest: those_Some split: option.splits if_splits)

lemma length_fit_transform: "fit_transform analyzer raw = Inr X \<Longrightarrow> length X = length raw"
  by (erule fit_transform_Inr) simp

lemma prepare_Inr:
  assumes "prepare_content_based_filtering analyzer fetched st0 = (Inr (), st)"
  obtains ms X where "fetched = Inr ms" and "ms \<noteq> []"
    and "fit_transform analyzer (map feature_text ms) = Inr X"
    and "st = \<lparr>movies_df = Some \<lparr>movies = ms, combined_features = Some (map feature_text ms)\<rparr>,
               tfidf_matrix = Some X, cosine_sim = Some (cosine_similarity X X)\<rparr>"
  using assms
  by (auto simp: prepare_content_based_filtering_def combine_features_def Let_def
      split: sum.splits if_splits)

lemma length_cosine_similarity: "length (cosine_similarity X Y) = length X"
  by (simp add: cosine_similarity_def)

lemma length_cosine_similarity_row:
  "i < length X \<Longrightarrow> length (cosine_similarity X Y ! i) = length Y"
  by (simp add: cosine_similarity_def)

lemma find_idx_present:
  assumes "movie_id \<in> id' ` set ms"
  obtains idx where "find_idx ms movie_id = Inr idx" and "idx < length ms"
    and "id' (ms ! idx) = movie_id" and "\<forall>j<idx. id' (ms ! j) \<noteq> movie_id"
proof -
  let ?P = "\<lambda>i. id' (ms ! i) = movie_id"
  from assms obtain i where i: "i < length ms" "?P i"
    by (auto simp: in_set_conv_nth)
  then have "i \<in> set (filter ?P [0..<length ms])" by simp
  then obtain idx rest where f: "filter ?P [0..<length ms] = idx # rest"
    by (cases "filter ?P [0..<length ms]") auto
  then obtain us vs where uv: "[0..<length ms] = us @ idx # vs" "\<forall>u\<in>set us. \<not> ?P u" "?P idx"
    by (auto simp: filter_eq_Cons_iff)
  have "idx \<in> set [0..<length ms]" using uv(1) by simp
  then have lt: "idx < length ms" by simp
  have "sorted_wrt (<) (us @ idx # vs)"
    using uv(1) by (metis sorted_wrt_upt)
  have "\<forall>j<idx. j \<in> set us"
  proof (intro allI impI)
    fix j assume "j < idx"
    then have "j \<in> set [0..<length ms]" using lt by simp
    then have "j \<in> set (us @ idx # vs)" unfolding uv(1) .
    then have "j \<in> set us \<or> j = idx \<or> j \<in> set vs" by auto
    moreover have "\<forall>v\<in>set vs. idx < v"
      using \<open>sorted_wrt (<) (us @ idx # vs)\<close> by (simp add: sorted_wrt_append)
    ultimately show "j \<in> set us" using \<open>j < idx\<close> by auto
  qed
  then have "\<forall>j<idx. id' (ms ! j) \<noteq> movie_id" using uv(2) by blast
  moreover have "find_idx ms movie_id = Inr idx"
    using f i(1) by (auto simp: find_idx_def)
  ultimately show ?thesis using that lt uv(3) by blast
qed

lemma find_idx_absent:
  assumes "ms \<noteq> []" and "movie_id \<notin> id' ` set ms"
  shows "find_idx ms movie_id = Inl IndexError"
proof -
  have "filter (\<lambda>i. id' (ms ! i) = movie_id) [0..<length ms] = []"
    using assms(2) by (auto simp: filter_empty_conv)
  then show ?thesis using assms(1) by (simp add: find_idx_def)
qed

lemma iloc_top5:
  assumes "length row = length ms"
  shows "iloc ms (map fst (top5 row)) = Inr (map (\<lambda>p. ms ! fst p) (top5 row))"
proof -
  have "\<forall>p\<in>set (top5 row). fst p < length ms"
    using set_top5 [of row] assms by (auto simp: in_set_enumerate_eq)
  then show ?thesis by (simp add: iloc_def list_all_iff comp_def)
qed

lemma recommend_built:
  assumes "movies_df st = Some df" and "cosine_sim st = Some K"
    and "find_idx (movies df) movie_id = Inr idx" and "idx < length K"
    and "length (K ! idx) = length (movies df)"
  shows "get_movie_recommendations movie_id st =
           (Inr (map (\<lambda>p. to_dict (movies df ! fst p)) (top5 (K ! idx))), st)"
  using assms
  by (simp add: get_movie_recommendations_def recommend_def Let_def iloc_top5 comp_def)

section \<open>Properties of the similarity matrix\<close>

lemma sum_squares_nonneg: "0 \<le> sum_list (map (\<lambda>x. x * x) (v :: real list))"
  by (rule sum_list_nonneg) auto

lemma norm2_eq_0_iff: "norm2 v = 0 \<longleftrightarrow> (\<forall>x\<in>set v. x = 0)"
proof -
  have "sum_list (map (\<lambda>x. x * x) v) = 0 \<longleftrightarrow> (\<forall>y\<in>set (map (\<lambda>x. x * x) v). y = 0)"
    by (rule sum_list_nonneg_eq_0_iff) auto
  then show ?thesis by (auto simp: norm2_def)
qed

lemma norm2_nonneg: "0 \<le> norm2 v"
  by (simp add: norm2_def sum_squares_nonneg)


lemma dot_self: "dot v v = norm2 v * norm2 v"
proof -
  have "dot v v = sum_list (map (\<lambda>x. x * x) v)"
    by (simp add: dot_def zip_same_conv_map comp_def)
  then show ?thesis
    by (simp add: norm2_def sum_squares_nonneg)
qed

lemma dot_scaled: "dot (map (\<lambda>x. x / a) u) (map (\<lambda>x. x / b) v) = dot u v / (a * b)"
proof (induction u arbitrary: v)
  case Nil
  then show ?case by (simp add: dot_def)
next
  case (Cons x u)
  show ?case
  proof (cases v)
    case Nil
    then show ?thesis by (simp add: dot_def)
  next
    case (Cons y w)
    have "dot (map (\<lambda>x. x / a) u) (map (\<lambda>x. x / b) w) = dot u w / (a * b)"
      by (rule Cons.IH)
    then show ?thesis
      using Cons by (simp add: dot_def add_divide_distrib)
  qed
qed

lemma dot_zero_left: "\<forall>x\<in>set u. x = 0 \<Longrightarrow> dot u v = 0"
proof (induction u arbitrary: v)
  case Nil
  then show ?case by (simp add: dot_def)
next
  case (Cons x u)
  then have "dot u w = 0" for w by simp
  with Cons.prems show ?case
    by (cases v) (simp_all add: dot_def)
qed

lemma dot_norm2_zero: "norm2 u = 0 \<Longrightarrow> dot u v = 0"
  by (rule dot_zero_left) (simp add: norm2_eq_0_iff)

lemma normalize_zero: "norm2 v = 0 \<Longrightarrow> normalize_l2 v = v"
  by (simp add: normalize_l2_def)

lemma dot_normalize_self: "norm2 v \<noteq> 0 \<Longrightarrow> dot (normalize_l2 v) (normalize_l2 v) = 1"
proof -
  assume nz: "norm2 v \<noteq> 0"
  then have "dot (normalize_l2 v) (normalize_l2 v) = dot v v / (norm2 v * norm2 v)"
    by (simp add: normalize_l2_def dot_scaled)
  also have "\<dots> = 1"
    using nz by (simp add: dot_self)
  finally show ?thesis .
qed

lemma norm2_normalize: "norm2 v \<noteq> 0 \<Longrightarrow> norm2 (normalize_l2 v) = 1"
proof -
  assume nz: "norm2 v \<noteq> 0"
  have "norm2 (normalize_l2 v) * norm2 (normalize_l2 v) = 1"
    using dot_normalize_self [OF nz] unfolding dot_self .
  then have "norm2 (normalize_l2 v) = 1 \<or> norm2 (normalize_l2 v) = - 1"
    by (simp add: square_eq_1_iff)
  then show ?thesis using norm2_nonneg [of "normalize_l2 v"] by auto
qed

lemma norm2_normalize_eq_0: "norm2 (normalize_l2 v) = 0 \<longleftrightarrow> norm2 v = 0"
proof (cases "norm2 v = 0")
  case True
  then show ?thesis by (simp add: normalize_zero)
next
  case False
  then show ?thesis using norm2_normalize [OF False] by simp
qed

lemma cosine_similarity_nth:
  "i < length X \<Longrightarrow> j < length Y \<Longrightarrow>
   cosine_similarity X Y ! i ! j = dot (normalize_l2 (X ! i)) (normalize_l2 (Y ! j))"
  by (simp add: cosine_similarity_def)


lemma cosine_similarity_zero_row:
  "i < length X \<Longrightarrow> j < length X \<Longrightarrow> norm2 (X ! i) = 0 \<Longrightarrow>
   cosine_similarity X X ! i ! j = 0"
  by (simp add: cosine_similarity_nth normalize_zero dot_norm2_zero)

lemma cosine_similarity_diag:
  "i < length X \<Longrightarrow>
   cosine_similarity X X ! i ! i = (if norm2 (X ! i) = 0 then 0 else 1)"
  by (simp add: cosine_similarity_zero_row) (simp add: cosine_similarity_nth dot_normalize_self)

lemma doc_freq_le: "doc_freq toks w \<le> length toks"
  by (simp add: doc_freq_def)

lemma idf_pos: "df \<le> n \<Longrightarrow> 0 < idf n df"
proof -
  assume "df \<le> n"
  then have "1 \<le> (1 + real n) / (1 + real df)" by simp
  then have "0 \<le> ln ((1 + real n) / (1 + real df))" by simp
  then show ?thesis unfolding idf_def by linarith
qed

lemma tfidf_row_zero_iff:
  assumes "set t \<subseteq> set vocab"
  shows "norm2 (tfidf_row toks vocab t) = 0 \<longleftrightarrow> t = []"
proof -
  have pos: "idf (length toks) (doc_freq toks w) \<noteq> 0" for w
    using idf_pos [OF doc_freq_le, of toks w] by simp
  let ?raw = "map (\<lambda>w. real (count_list t w) * idf (length toks) (doc_freq toks w)) vocab"
  have "norm2 (tfidf_row toks vocab t) = 0 \<longleftrightarrow> norm2 ?raw = 0"
    by (simp only: tfidf_row_def norm2_normalize_eq_0)
  also have "\<dots> \<longleftrightarrow> (\<forall>w\<in>set vocab. count_list t w = 0)"
    by (simp add: norm2_eq_0_iff pos)
  also have "\<dots> \<longleftrightarrow> t = []"
    using assms by (cases t) (auto simp: count_list_0_iff)
  finally show ?thesis .
qed

section \<open>Outcome of the build\<close>

lemma those_map_Some: "those (map Some xs) = Some xs"
  by (induction xs) auto

lemma sort_remdups_Nil: "sort (remdups xs) = [] \<longleftrightarrow> xs = []"
  by (metis set_empty set_sort set_remdups)

lemma fit_transform_Some:
  "fit_transform analyzer (map Some docs) =
     (if concat (map analyzer docs) = [] then Inl ValueError
      else Inr (map (tfidf_row (map analyzer docs)
                   (sort (remdups (concat (map analyzer docs)))))
               (map analyzer docs)))"
  by (simp add: fit_transform_def those_map_Some Let_def sort_remdups_Nil del: concat_eq_Nil_conv)

lemma those_None: "None \<in> set xs \<Longrightarrow> those xs = None"
  by (induction xs) (auto split: option.splits)

lemma fit_transform_None: "None \<in> set raw \<Longrightarrow> fit_transform analyzer raw = Inl ValueError"
  by (simp add: fit_transform_def those_None)

lemma prepare_fetched:
  "prepare_content_based_filtering analyzer (Inr ms) st =
     (if ms = [] then (Inl KeyError, st\<lparr>movies_df := Some \<lparr>movies = ms, combined_features = None\<rparr>\<rparr>)
      else case fit_transform analyzer (map feature_text ms) of
             Inl e \<Rightarrow> (Inl e, st\<lparr>movies_df := Some \<lparr>movies = ms, combined_features = Some (map feature_text ms)\<rparr>\<rparr>)
           | Inr X \<Rightarrow> (Inr (), \<lparr>movies_df = Some \<lparr>movies = ms, combined_features = Some (map feature_text ms)\<rparr>,
                              tfidf_matrix = Some X, cosine_sim = Some (cosine_similarity X X)\<rparr>))"
  by (simp add: prepare_content_based_filtering_def combine_features_def Let_def split: sum.split)

lemma fst_prepare_Inr:
  "fst (prepare_content_based_filtering analyzer (Inr ms) st) = Inr () \<longleftrightarrow>
     ms \<noteq> [] \<and> (\<exists>X. fit_transform analyzer (map feature_text ms) = Inr X)"
  by (auto simp: prepare_fetched split: sum.splits)

lemma prepare_collapse:
  "fst (prepare_content_based_filtering analyzer fetched st) = Inr () \<Longrightarrow>
   prepare_content_based_filtering analyzer fetched st =
     (Inr (), snd (prepare_content_based_filtering analyzer fetched st))"
  by (metis prod.collapse)

lemma movies_df_prepare:
  "movies_df (snd (prepare_content_based_filtering analyzer (Inr ms) st)) =
     Some \<lparr>movies = ms, combined_features = (if ms = [] then None else Some (map feature_text ms))\<rparr>"
  by (simp add: prepare_fetched split: sum.split)

lemma feature_text_cases:
  "feature_text m = (if overview m = None \<or> title m = None then None else Some (spec_feature_text m))"
  by (cases "overview m"; cases "title m") (simp_all add: feature_text_def spec_feature_text_def)

lemma fst_prepare_missing:
  assumes "m \<in> set ms" and "overview m = None \<or> title m = None"
  shows "fst (prepare_content_based_filtering analyzer (Inr ms) st) = Inl ValueError"
proof -
  have "feature_text m = None" using assms(2) by (simp add: feature_text_cases)
  then have "None \<in> set (map feature_text ms)" using assms(1) by force
  then have "fit_transform analyzer (map feature_text ms) = Inl ValueError"
    by (rule fit_transform_None)
  moreover have "ms \<noteq> []" using assms(1) by auto
  ultimately show ?thesis by (simp add: prepare_fetched)
qed

lemma fst_prepare_present:
  assumes "\<forall>m\<in>set ms. overview m \<noteq> None \<and> title m \<noteq> None"
  shows "fst (prepare_content_based_filtering analyzer (Inr ms) st) = Inr () \<longleftrightarrow>
           (\<exists>m\<in>set ms. analyzer (spec_feature_text m) \<noteq> [])"
proof -
  have eq: "map feature_text ms = map Some (map spec_feature_text ms)"
    using assms by (simp add: feature_text_cases)
  have "ms \<noteq> []" if "m \<in> set ms" for m using that by auto
  then show ?thesis
    unfolding fst_prepare_Inr eq fit_transform_Some by auto
qed

lemma map_Some_eq: "map Some xs = map Some ys \<Longrightarrow> xs = ys"
  by (simp add: inj_map_eq_map)

lemma set_toks_vocab:
  "t \<in> set toks \<Longrightarrow> set t \<subseteq> set (sort (remdups (concat toks)))"
  by auto

lemma built_matrix:
  assumes "prepare_content_based_filtering analyzer (Inr ms) st0 = (Inr (), st)"
  obtains docs X where "map feature_text ms = map Some docs" and "length X = length ms"
    and "st = \<lparr>movies_df = Some \<lparr>movies = ms, combined_features = Some (map feature_text ms)\<rparr>,
               tfidf_matrix = Some X, cosine_sim = Some (cosine_similarity X X)\<rparr>"
    and "concat (map analyzer docs) \<noteq> []"
    and "\<forall>i<length ms. norm2 (X ! i) = 0 \<longleftrightarrow> analyzer (docs ! i) = []"
    and "\<forall>i<length ms. \<forall>j<length ms. docs ! i = docs ! j \<longrightarrow> X ! i = X ! j"
proof -
  from assms obtain X where X: "fit_transform analyzer (map feature_text ms) = Inr X"
    and st: "st = \<lparr>movies_df = Some \<lparr>movies = ms, combined_features = Some (map feature_text ms)\<rparr>,
               tfidf_matrix = Some X, cosine_sim = Some (cosine_similarity X X)\<rparr>"
    by (auto elim!: prepare_Inr)
  from X obtain docs where docs: "map feature_text ms = map Some docs"
    and ne: "sort (remdups (concat (map analyzer docs))) \<noteq> []"
    and Xeq: "X = map (tfidf_row (map analyzer docs)
                   (sort (remdups (concat (map analyzer docs)))))
               (map analyzer docs)"
    by (rule fit_transform_Inr)
  have len: "length docs = length ms"
    using docs by (metis length_map)
  have ne': "concat (map analyzer docs) \<noteq> []"
    using ne unfolding sort_remdups_Nil .
  have zero: "\<forall>i<length ms. norm2 (X ! i) = 0 \<longleftrightarrow> analyzer (docs ! i) = []"
  proof (intro allI impI)
    fix i assume i: "i < length ms"
    let ?toks = "map analyzer docs"
    have "?toks ! i \<in> set ?toks" using i len by simp
    then have "set (?toks ! i) \<subseteq> set (sort (remdups (concat ?toks)))"
      by (rule set_toks_vocab)
    then have "norm2 (tfidf_row ?toks (sort (remdups (concat ?toks))) (?toks ! i)) = 0
                 \<longleftrightarrow> ?toks ! i = []"
      by (rule tfidf_row_zero_iff)
    then show "norm2 (X ! i) = 0 \<longleftrightarrow> analyzer (docs ! i) = []"
      using i len by (simp add: Xeq)
  qed
  have lenX: "length X = length ms" using len by (simp add: Xeq)
  have same: "\<forall>i<length ms. \<forall>j<length ms. docs ! i = docs ! j \<longrightarrow> X ! i = X ! j"
    using len by (simp add: Xeq)
  show ?thesis
    by (rule that [OF docs lenX st ne' zero same])
qed


section \<open>Properties of the query\<close>

lemma query_absent:
  assumes "movies_df st = Some df" and "movies df \<noteq> []" and "movie_id \<notin> id' ` set (movies df)"
  shows "get_movie_recommendations movie_id st = (Inl (HTTPException 500 IndexError), st)"
  using assms find_idx_absent [OF assms(2,3)]
  by (simp add: get_movie_recommendations_def recommend_def)

lemma query_unbuilt:
  assumes "cosine_sim st = None"
  shows "\<exists>e. get_movie_recommendations movie_id st = (Inl (HTTPException 500 e), st) \<and>
             (movies_df st = None \<longrightarrow> e = TypeError)"
  using assms
  by (simp add: get_movie_recommendations_def recommend_def split: option.split sum.split)





section \<open>The sample data, evaluated\<close>

lemma feature_text_alpha: "feature_text alpha = Some ''a hero saves the world Alpha''"
  by (simp add: feature_text_def alpha_def)

lemma feature_text_beta: "feature_text beta = Some ''a hero saves the world Alpha''"
  by (simp add: feature_text_def beta_def)

lemma feature_text_gamma: "feature_text gamma = Some '' E.T.''"
  by (simp add: feature_text_def gamma_def)

lemma feature_text_delta: "feature_text delta = None"
  by (simp add: feature_text_def delta_def)

lemma analyze_hero:
  "ascii_analyzer english_sample ''a hero saves the world Alpha'' = [''hero'', ''saves'', ''world'', ''alpha'']"
  by (simp add: ascii_analyzer_def english_sample_def ascii_lower_def ascii_word_char_def emit_def)

lemma analyze_et: "ascii_analyzer english_sample '' E.T.'' = []"
  by (simp add: ascii_analyzer_def english_sample_def ascii_lower_def ascii_word_char_def emit_def)

lemma features_ab: "map feature_text [alpha, beta] =
    map Some [''a hero saves the world Alpha'', ''a hero saves the world Alpha'']"
  by (simp add: feature_text_alpha feature_text_beta)

lemma build_ab: "fst (prepare_content_based_filtering (ascii_analyzer english_sample) (Inr [alpha, beta]) initial) = Inr ()"
  unfolding fst_prepare_Inr features_ab fit_transform_Some
  by (simp add: analyze_hero)

lemma build_delta:
  "prepare_content_based_filtering (ascii_analyzer english_sample) (Inr [delta]) initial =
     (Inl ValueError, initial\<lparr>movies_df := Some \<lparr>movies = [delta], combined_features = Some [None]\<rparr>\<rparr>)"
  by (simp add: prepare_fetched feature_text_delta fit_transform_None)




lemma features_ag: "map feature_text [alpha, gamma] =
    map Some [''a hero saves the world Alpha'', '' E.T.'']"
  by (simp add: feature_text_alpha feature_text_gamma)

lemma build_ag: "fst (prepare_content_based_filtering (ascii_analyzer english_sample) (Inr [alpha, gamma]) initial) = Inr ()"
  unfolding fst_prepare_Inr features_ag fit_transform_Some
  by (simp add: analyze_hero)

lemma row_beta: "\<exists>K. cosine_sim (built [alpha, beta]) = Some K \<and> length K = 2 \<and> K ! 1 = [1, 1]"
proof -
  from prepare_collapse [OF build_ab] obtain docs X
    where docs: "map feature_text [alpha, beta] = map Some docs"
      and len: "length X = length [alpha, beta]"
      and st: "built [alpha, beta] = \<lparr>movies_df = Some \<lparr>movies = [alpha, beta],
                 combined_features = Some (map feature_text [alpha, beta])\<rparr>,
               tfidf_matrix = Some X, cosine_sim = Some (cosine_similarity X X)\<rparr>"
      and zero: "\<forall>i<length [alpha, beta]. norm2 (X ! i) = 0 \<longleftrightarrow> ascii_analyzer english_sample (docs ! i) = []"
      and same: "\<forall>i<length [alpha, beta]. \<forall>j<length [alpha, beta]. docs ! i = docs ! j \<longrightarrow> X ! i = X ! j"
    by (rule built_matrix) blast
  have d: "docs = [''a hero saves the world Alpha'', ''a hero saves the world Alpha'']"
    by (rule map_Some_eq [OF trans [OF docs [symmetric] features_ab]])
  have l: "length X = 2" using len by simp
  have nz: "norm2 (X ! 1) \<noteq> 0"
    using zero by (simp add: d analyze_hero)
  have eq: "X ! 0 = X ! 1"
    using same by (simp add: d)
  let ?K = "cosine_similarity X X"
  have "length (?K ! 1) = 2"
    using l by (simp add: length_cosine_similarity_row)
  then have "?K ! 1 = [?K ! 1 ! 0, ?K ! 1 ! 1]"
    by (auto simp: list_eq_iff_nth_eq less_Suc_eq numeral_2_eq_2)
  moreover have "?K ! 1 ! 1 = 1"
    using nz l by (simp add: cosine_similarity_diag)
  moreover have "?K ! 1 ! 0 = 1"
    using nz l by (simp add: cosine_similarity_nth eq dot_normalize_self)
  ultimately have "?K ! 1 = [1, 1]" by simp
  moreover have "cosine_sim (built [alpha, beta]) = Some ?K"
    by (subst st) simp
  ultimately show ?thesis using l by (simp add: length_cosine_similarity)
qed

lemma row_gamma: "\<exists>K. cosine_sim (built [alpha, gamma]) = Some K \<and> length K = 2 \<and> K ! 1 = [0, 0]"
proof -
  from prepare_collapse [OF build_ag] obtain docs X
    where docs: "map feature_text [alpha, gamma] = map Some docs"
      and len: "length X = length [alpha, gamma]"
      and st: "built [alpha, gamma] = \<lparr>movies_df = Some \<lparr>movies = [alpha, gamma],
                 combined_features = Some (map feature_text [alpha, gamma])\<rparr>,
               tfidf_matrix = Some X, cosine_sim = Some (cosine_similarity X X)\<rparr>"
      and zero: "\<forall>i<length [alpha, gamma]. norm2 (X ! i) = 0 \<longleftrightarrow> ascii_analyzer english_sample (docs ! i) = []"
    by (rule built_matrix) blast
  have d: "docs = [''a hero saves the world Alpha'', '' E.T.'']"
    by (rule map_Some_eq [OF trans [OF docs [symmetric] features_ag]])
  have l: "length X = 2" using len by simp
  have z: "norm2 (X ! 1) = 0"
    using zero by (simp add: d analyze_et)
  let ?K = "cosine_similarity X X"
  have "length (?K ! 1) = 2"
    using l by (simp add: length_cosine_similarity_row)
  then have "?K ! 1 = [?K ! 1 ! 0, ?K ! 1 ! 1]"
    by (auto simp: list_eq_iff_nth_eq less_Suc_eq numeral_2_eq_2)
  moreover have "?K ! 1 ! 0 = 0" "?K ! 1 ! 1 = 0"
    using z l by (simp_all add: cosine_similarity_zero_row)
  ultimately have "?K ! 1 = [0, 0]" by simp
  moreover have "cosine_sim (built [alpha, gamma]) = Some ?K"
    by (subst st) simp
  ultimately show ?thesis using l by (simp add: length_cosine_similarity)
qed

lemma top5_11: "top5 [1, 1] = [(1, 1)]"
  by (simp add: top5_def ranked_def sorted_reverse_def enumerate_eq_zip upt_rec)

lemma top5_00: "top5 [0, 0] = [(1, 0)]"
  by (simp add: top5_def ranked_def sorted_reverse_def enumerate_eq_zip upt_rec)

lemma find_idx_beta: "find_idx [alpha, beta] 2 = Inr 1"
  by (simp add: find_idx_def alpha_def beta_def upt_rec)

lemma find_idx_gamma: "find_idx [alpha, gamma] 3 = Inr 1"
  by (simp add: find_idx_def alpha_def gamma_def upt_rec)

section \<open>The query in memory only adds objects\<close>

lemma extends_refl: "extends s s"
  by (simp add: extends_def)

lemma extends_length: "extends s s' \<Longrightarrow> length (objects s) \<le> length (objects s')"
proof -
  assume "extends s s'"
  then have "length (take (length (objects s)) (objects s')) = length (objects s)"
    by (simp add: extends_def)
  then show ?thesis by simp
qed

lemma extends_trans: "extends s t \<Longrightarrow> extends t u \<Longrightarrow> extends s u"
proof -
  assume st: "extends s t" and tu: "extends t u"
  have l: "length (objects s) \<le> length (objects t)"
    using st by (rule extends_length)
  have "take (length (objects s)) (objects u) =
          take (length (objects s)) (take (length (objects t)) (objects u))"
    using l by (simp add: min_def)
  also have "\<dots> = take (length (objects s)) (objects t)"
    using tu by (simp only: extends_def)
  also have "\<dots> = objects s"
    using st by (simp only: extends_def)
  finally show ?thesis using st tu by (simp add: extends_def)
qed

lemma extends_nth: "extends s s' \<Longrightarrow> a < length (objects s) \<Longrightarrow> objects s' ! a = objects s ! a"
proof -
  assume e: "extends s s'" and a: "a < length (objects s)"
  have "take (length (objects s)) (objects s') ! a = objects s' ! a"
    using a by simp
  then show ?thesis using e by (simp add: extends_def)
qed

lemma frames_return: "frames (return x)"
  by (simp add: frames_def return_def extends_refl)

lemma frames_raise: "frames (raise e)"
  by (simp add: frames_def raise_def extends_refl)

lemma frames_alloc: "frames (alloc obj)"
  by (simp add: frames_def alloc_def extends_def)

lemma frames_load: "frames (load a)"
  by (simp add: frames_def load_def extends_refl)

lemma frames_global: "frames (global g)"
  by (simp add: frames_def global_def extends_refl split: option.split)

lemma frames_bind:
  assumes "frames m" and "\<And>x. frames (f x)"
  shows "frames (bind m f)"
proof -
  have "extends s (snd (bind m f s))" for s
  proof (cases "m s")
    case (Pair r t)
    have st: "extends s t" using assms(1) Pair by (metis frames_def snd_conv)
    show ?thesis
    proof (cases r)
      case (Inl e)
      then show ?thesis using Pair st by (simp add: bind_def)
    next
      case (Inr x)
      have "extends t (snd (f x t))" using assms(2) by (simp add: frames_def)
      then show ?thesis using Pair Inr st by (simp add: bind_def extends_trans)
    qed
  qed
  then show ?thesis by (simp add: frames_def)
qed

lemmas frames_intros = frames_return frames_raise frames_alloc frames_load frames_global frames_bind

lemma frames_load_frame: "frames (load_frame a)"
  unfolding load_frame_def by (intro frames_bind frames_load) (simp add: frames_intros split: object.split)

lemma frames_load_matrix: "frames (load_matrix a)"
  unfolding load_matrix_def by (intro frames_bind frames_load) (simp add: frames_intros split: object.split)

lemma frames_load_pairs: "frames (load_pairs a)"
  unfolding load_pairs_def by (intro frames_bind frames_load) (simp add: frames_intros split: object.split)

lemma frames_id_equals: "frames (id_equals d movie_id)"
  unfolding id_equals_def by (intro frames_bind frames_load_frame) (simp add: frames_intros)

lemma frames_getitem_mask: "frames (getitem_mask d flags)"
  unfolding getitem_mask_def
  by (intro frames_bind frames_load_frame frames_load) (simp add: frames_intros split: object.split)

lemma frames_index_0: "frames (index_0 sel)"
  unfolding index_0_def
  by (intro frames_bind frames_load) (simp add: frames_intros split: object.split list.split prod.split)

lemma frames_getitem_row: "frames (getitem_row k idx)"
  unfolding getitem_row_def by (intro frames_bind frames_load_matrix) (simp add: frames_intros)

lemma frames_list_enumerate: "frames (list_enumerate v)"
  unfolding list_enumerate_def
  by (intro frames_bind frames_load)
    (auto intro!: frames_bind frames_load_matrix frames_alloc frames_raise split: object.split)

lemma frames_sorted_list: "frames (sorted_list p)"
  unfolding sorted_list_def by (intro frames_bind frames_load_pairs frames_alloc)

lemma frames_slice_1_6: "frames (slice_1_6 p)"
  unfolding slice_1_6_def by (intro frames_bind frames_load_pairs frames_alloc)

lemma frames_first_components: "frames (first_components p)"
  unfolding first_components_def by (intro frames_bind frames_load_pairs frames_alloc)

lemma frames_iloc_rows: "frames (iloc_rows d ps)"
  unfolding iloc_rows_def
  by (intro frames_bind frames_load_frame frames_load)
    (simp add: frames_intros split: object.split sum.split)

lemma frames_getitem_columns: "frames (getitem_columns sel)"
  unfolding getitem_columns_def
  by (intro frames_bind frames_load) (simp add: frames_intros split: object.split)

lemma frames_to_dict_records: "frames (to_dict_records pr)"
  unfolding to_dict_records_def
  by (intro frames_bind frames_load)
    (auto intro!: frames_bind frames_alloc frames_return frames_raise split: object.split)

lemma frames_recommend_in_memory: "frames (recommend_in_memory movie_id)"
  unfolding recommend_in_memory_def
  apply (rule frames_bind, rule frames_global)
  apply (rule frames_bind, rule frames_id_equals)
  apply (rule frames_bind, rule frames_getitem_mask)
  apply (rule frames_bind, rule frames_index_0)
  apply (rule frames_bind, rule frames_global)
  apply (rule frames_bind, rule frames_getitem_row)
  apply (rule frames_bind, rule frames_list_enumerate)
  apply (rule frames_bind, rule frames_sorted_list)
  apply (rule frames_bind, rule frames_slice_1_6)
  apply (rule frames_bind, rule frames_first_components)
  apply (rule frames_bind, rule frames_iloc_rows)
  apply (rule frames_bind, rule frames_getitem_columns)
  apply (rule frames_to_dict_records)
  done

lemma extends_query: "extends s (snd (get_movie_recommendations_in_memory movie_id s))"
proof (cases "recommend_in_memory movie_id s")
  case (Pair r t)
  have "extends s (snd (recommend_in_memory movie_id s))"
    using frames_recommend_in_memory by (simp add: frames_def)
  then have "extends s t" by (simp add: Pair)
  then show ?thesis
    using Pair by (cases r) (simp_all add: get_movie_recommendations_in_memory_def)
qed

lemma bind_return: "bind (return x) f s = f x s"
  by (simp add: bind_def return_def)

lemma bind_raise: "bind (raise e) f s = (Inl e, s)"
  by (simp add: bind_def raise_def)

lemma bind_alloc: "bind (alloc obj) f s = f (length (objects s)) (s\<lparr>objects := objects s @ [obj]\<rparr>)"
  by (simp add: bind_def alloc_def)

lemma bind_load: "a < length (objects s) \<Longrightarrow> bind (load a) f s = f (objects s ! a) s"
  by (simp add: bind_def load_def)

lemma bind_global_None: "g s = None \<Longrightarrow> bind (global g) f s = (Inl TypeError, s)"
  by (simp add: bind_def global_def)

lemma bind_global_Some: "g s = Some a \<Longrightarrow> bind (global g) f s = f a s"
  by (simp add: bind_def global_def)

lemma bind_assoc: "bind (bind m f) g s = bind m (\<lambda>x. bind (f x) g) s"
  by (simp add: bind_def split: prod.split sum.split)

lemma fst_filter_enumerate:
  "map fst (filter (\<lambda>(i, m). Q i) (enumerate n ms)) = filter Q [n..<n + length ms]"
proof (induction ms arbitrary: n)
  case Nil
  then show ?case by simp
next
  case (Cons m ms)
  have "n < n + length (m # ms)" by simp
  from upt_conv_Cons [OF this]
  have "[n..<n + length (m # ms)] = n # [Suc n..<Suc n + length ms]" by simp
  then show ?case using Cons [of "Suc n"] by simp
qed

lemma filter_flags:
  "filter (\<lambda>i. map P ms ! i) [0..<length ms] = filter (\<lambda>i. P (ms ! i)) [0..<length ms]"
  by (rule filter_cong) simp_all

lemma map_snd_projection:
  "length ps = length rows \<Longrightarrow>
   map snd (map (\<lambda>(label, m). (label, to_dict m)) (zip ps rows)) = map to_dict rows"
  by (induction ps rows rule: list_induct2) simp_all

lemmas run_simps = recommend_in_memory_def id_equals_def getitem_mask_def index_0_def
  getitem_row_def list_enumerate_def sorted_list_def slice_1_6_def first_components_def
  iloc_rows_def getitem_columns_def to_dict_records_def load_frame_def load_matrix_def
  load_pairs_def bind_assoc bind_load bind_return bind_raise bind_alloc nth_append
  return_def raise_def

lemma refines_recommend:
  assumes "well_formed s"
  shows "fst (recommend_in_memory movie_id s) = recommend (cache_of s) movie_id"
proof (cases "movies_df_ref s")
  case None
  then show ?thesis
    by (simp add: recommend_in_memory_def bind_global_None recommend_def cache_of_def frame_at_def)
next
  case (Some d)
  then obtain df where d: "d < length (objects s)" "objects s ! d = Frame df"
    using assms by (auto simp: well_formed_def frame_at_def split: if_splits object.splits)
  have c1: "movies_df (cache_of s) = Some df"
    using Some d by (simp add: cache_of_def frame_at_def)
  show ?thesis
  proof (cases "movies df = []")
    case True
    then show ?thesis
      using Some d c1
      by (simp add: run_simps bind_global_Some recommend_def find_idx_def)
  next
    case False
    let ?sel = "filter (\<lambda>(label, m). map (\<lambda>m. id' m = movie_id) (movies df) ! label)
                  (enumerate 0 (movies df))"
    have labels: "map fst ?sel =
        filter (\<lambda>i. id' (movies df ! i) = movie_id) [0..<length (movies df)]"
      using fst_filter_enumerate [of "\<lambda>i. map (\<lambda>m. id' m = movie_id) (movies df) ! i" 0 "movies df"]
      by (simp add: filter_flags)
    show ?thesis
    proof (cases ?sel)
      case Nil
      then have "filter (\<lambda>i. id' (movies df ! i) = movie_id) [0..<length (movies df)] = []"
        using labels by simp
      then show ?thesis
        using Some d c1 False Nil
        by (simp add: run_simps bind_global_Some recommend_def find_idx_def)
    next
      case (Cons p rest)
      obtain idx m where p: "p = (idx, m)" by (cases p)
      have f: "filter (\<lambda>i. id' (movies df ! i) = movie_id) [0..<length (movies df)]
                 = idx # map fst rest"
        using labels Cons p by simp
      show ?thesis
      proof (cases "cosine_sim_ref s")
        case None
        then have "cosine_sim (cache_of s) = None"
          by (simp add: cache_of_def matrix_at_def)
        then show ?thesis
          using Some d c1 False Cons p f None
          by (simp add: run_simps bind_global_Some bind_global_None recommend_def find_idx_def)
      next
        case k: (Some k)
        then obtain K where K: "k < length (objects s)" "objects s ! k = Matrix K"
          using assms by (auto simp: well_formed_def matrix_at_def split: if_splits object.splits)
        have c3: "cosine_sim (cache_of s) = Some K"
          using k K by (simp add: cache_of_def matrix_at_def)
        show ?thesis
        proof (cases "idx < length K")
          case False
          then show ?thesis
            using Some d c1 \<open>movies df \<noteq> []\<close> Cons p f k K c3
            by (simp add: run_simps bind_global_Some recommend_def find_idx_def)
        next
          case True
          show ?thesis
          proof (cases "iloc (movies df) (map fst (top5 (K ! idx)))")
            case (Inl e)
            then show ?thesis
              using Some d c1 \<open>movies df \<noteq> []\<close> Cons p f k K c3 True
              by (simp add: run_simps bind_global_Some recommend_def find_idx_def
                  ranked_def top5_def)
          next
            case (Inr rows)
            then have "length (map fst (top5 (K ! idx))) = length rows"
              by (auto simp: iloc_def split: if_splits)
            then have "map snd (map (\<lambda>(label, m). (label, to_dict m))
                         (zip (map fst (top5 (K ! idx))) rows)) = map to_dict rows"
              by (rule map_snd_projection)
            then show ?thesis
              using Some d c1 \<open>movies df \<noteq> []\<close> Cons p f k K c3 True Inr
              by (simp add: run_simps bind_global_Some recommend_def find_idx_def
                  ranked_def top5_def)
          qed
        qed
      qed
    qed
  qed
qed

lemma frame_at_extends:
  assumes "extends s s'" and "frame_at s r \<noteq> None"
  shows "frame_at s' r = frame_at s r"
proof -
  from assms(2) obtain a where a: "r = Some a" "a < length (objects s)"
    by (auto simp: frame_at_def split: option.splits if_splits)
  have "objects s' ! a = objects s ! a" "a < length (objects s')"
    using extends_nth [OF assms(1) a(2)] extends_length [OF assms(1)] a(2) by simp_all
  then show ?thesis using a by (simp add: frame_at_def)
qed

lemma matrix_at_extends:
  assumes "extends s s'" and "matrix_at s r \<noteq> None"
  shows "matrix_at s' r = matrix_at s r"
proof -
  from assms(2) obtain a where a: "r = Some a" "a < length (objects s)"
    by (auto simp: matrix_at_def split: option.splits if_splits)
  have "objects s' ! a = objects s ! a" "a < length (objects s')"
    using extends_nth [OF assms(1) a(2)] extends_length [OF assms(1)] a(2) by simp_all
  then show ?thesis using a by (simp add: matrix_at_def)
qed

lemma frame_at_None: "frame_at s None = None"
  by (simp add: frame_at_def)

lemma matrix_at_None: "matrix_at s None = None"
  by (simp add: matrix_at_def)

lemma cache_of_extends:
  assumes "well_formed s" and "extends s s'"
  shows "cache_of s' = cache_of s \<and> well_formed s'"
proof -
  have refs: "movies_df_ref s' = movies_df_ref s" "tfidf_matrix_ref s' = tfidf_matrix_ref s"
    "cosine_sim_ref s' = cosine_sim_ref s"
    using assms(2) by (simp_all add: extends_def)
  have 1: "frame_at s' (movies_df_ref s) = frame_at s (movies_df_ref s)"
    using assms frame_at_extends [OF assms(2)]
    by (cases "movies_df_ref s = None") (auto simp: well_formed_def frame_at_None)
  have 2: "matrix_at s' (tfidf_matrix_ref s) = matrix_at s (tfidf_matrix_ref s)"
    using assms matrix_at_extends [OF assms(2)]
    by (cases "tfidf_matrix_ref s = None") (auto simp: well_formed_def matrix_at_None)
  have 3: "matrix_at s' (cosine_sim_ref s) = matrix_at s (cosine_sim_ref s)"
    using assms matrix_at_extends [OF assms(2)]
    by (cases "cosine_sim_ref s = None") (auto simp: well_formed_def matrix_at_None)
  show ?thesis
    using assms(1) by (simp add: cache_of_def well_formed_def refs 1 2 3)
qed

lemma refines_query:
  assumes "well_formed s"
  shows "fst (get_movie_recommendations_in_memory movie_id s) =
           fst (get_movie_recommendations movie_id (cache_of s))"
proof (cases "recommend_in_memory movie_id s")
  case (Pair r t)
  then have "recommend (cache_of s) movie_id = r"
    using refines_recommend [OF assms, of movie_id] by simp
  then show ?thesis
    using Pair
    by (cases r) (simp_all add: get_movie_recommendations_in_memory_def get_movie_recommendations_def)
qed

lemma well_formed_memory_of: "well_formed (memory_of st)"
  by (cases "movies_df st"; cases "tfidf_matrix st"; cases "cosine_sim st")
    (simp_all add: well_formed_def memory_of_def frame_at_def matrix_at_def nth_append)

lemma cache_of_memory_of: "cache_of (memory_of st) = st"
  by (cases "movies_df st"; cases "tfidf_matrix st"; cases "cosine_sim st")
    (simp_all add: cache_of_def memory_of_def frame_at_def matrix_at_def nth_append)

section \<open>The movie itself among its recommendations\<close>

text \<open>
  C1 asks that the list returned for a movie never holds the movie's own row. The query
  drops the first entry of the sorted list, whatever row that is. On a page of two records
  with the same text both scores of the second row are 1, the stable sort puts row 0
  first, and the query for the second movie (id 2, row 1) returns exactly the record at
  row 1, the movie itself. The same happens on a page whose second record has a text
  without tokens: its row of scores is all 0, its own score included.
\<close>

theorem self_recommended:
  "fst (prepare_content_based_filtering (ascii_analyzer english_sample) (Inr [alpha, beta]) initial) = Inr () \<and>
   find_idx [alpha, beta] 2 = Inr 1 \<and>
   fst (get_movie_recommendations 2 (built [alpha, beta])) = Inr [to_dict ([alpha, beta] ! 1)] \<and>
   fst (prepare_content_based_filtering (ascii_analyzer english_sample) (Inr [alpha, gamma]) initial) = Inr () \<and>
   find_idx [alpha, gamma] 3 = Inr 1 \<and>
   fst (get_movie_recommendations 3 (built [alpha, gamma])) = Inr [to_dict ([alpha, gamma] ! 1)]"
proof -
  obtain K where K: "cosine_sim (built [alpha, beta]) = Some K" "length K = 2" "K ! 1 = [1, 1]"
    using row_beta by blast
  have "get_movie_recommendations 2 (built [alpha, beta]) =
          (Inr (map (\<lambda>p. to_dict (movies \<lparr>movies = [alpha, beta],
                 combined_features = Some (map feature_text [alpha, beta])\<rparr> ! fst p)) (top5 (K ! 1))),
           built [alpha, beta])"
    by (rule recommend_built [OF _ K(1)]) (use K in \<open>simp_all add: movies_df_prepare find_idx_beta\<close>)
  then have ab: "fst (get_movie_recommendations 2 (built [alpha, beta])) = Inr [to_dict ([alpha, beta] ! 1)]"
    using K by (simp add: top5_11)
  obtain Z where Z: "cosine_sim (built [alpha, gamma]) = Some Z" "length Z = 2" "Z ! 1 = [0, 0]"
    using row_gamma by blast
  have "get_movie_recommendations 3 (built [alpha, gamma]) =
          (Inr (map (\<lambda>p. to_dict (movies \<lparr>movies = [alpha, gamma],
                 combined_features = Some (map feature_text [alpha, gamma])\<rparr> ! fst p)) (top5 (Z ! 1))),
           built [alpha, gamma])"
    by (rule recommend_built [OF _ Z(1)]) (use Z in \<open>simp_all add: movies_df_prepare find_idx_gamma\<close>)
  then have ag: "fst (get_movie_recommendations 3 (built [alpha, gamma])) = Inr [to_dict ([alpha, gamma] ! 1)]"
    using Z by (simp add: top5_00)
  show ?thesis
    using ab ag build_ab build_ag find_idx_beta find_idx_gamma by simp
qed

section \<open>A movie id that is not in the corpus\<close>

text \<open>
  C2, as the code has it. For every built index and every movie id that no record of the
  corpus carries, the query fails with the handler's generic failure, status 500 with the
  text of the \<^verbatim>\<open>IndexError\<close> that \<^verbatim>\<open>.index[0]\<close> raises, and the cache is unchanged.
\<close>

theorem unknown_id_fails:
  assumes "prepare_content_based_filtering analyzer (Inr ms) st0 = (Inr (), st)"
    and "movie_id \<notin> id' ` set ms"
  shows "get_movie_recommendations movie_id st = (Inl (HTTPException 500 IndexError), st)"
proof -
  from assms(1) have "ms \<noteq> []"
    and "movies_df st = Some \<lparr>movies = ms, combined_features = Some (map feature_text ms)\<rparr>"
    by (auto elim!: prepare_Inr)
  then show ?thesis
    using query_absent [of st _ movie_id] assms(2) by simp
qed

theorem unknown_id_fails_witness:
  "get_movie_recommendations 99 (built [alpha, beta]) =
     (Inl (HTTPException 500 IndexError), built [alpha, beta])"
  using unknown_id_fails [OF prepare_collapse [OF build_ab], of 99]
  by (simp add: alpha_def beta_def)

text \<open>
  C2 as stated asks for a NotFound condition told apart from a generic failure. On the
  built sample index the unknown id 99 gets status 500, the generic failure.
\<close>

theorem unknown_id_counterexample:
  "fst (get_movie_recommendations 99 (built [alpha, beta])) = Inl (HTTPException 500 IndexError) \<and>
   generic_failure (fst (get_movie_recommendations 99 (built [alpha, beta])))"
proof -
  have "get_movie_recommendations 99 (built [alpha, beta]) =
     (Inl (HTTPException 500 IndexError), built [alpha, beta])"
    by (rule query_absent [OF movies_df_prepare]) (simp_all add: alpha_def beta_def)
  then show ?thesis by simp
qed

section \<open>A failed build\<close>

text \<open>
  C3, as the code has it. When a run of the build fails, the TF-IDF matrix and the
  similarity matrix keep the values they had. When the fetch failed the corpus keeps its
  value too; when a later step failed (feature combination, vectorization) the corpus is
  already the newly fetched one.
\<close>

theorem failed_build_state:
  assumes "prepare_content_based_filtering analyzer fetched st = (Inl e, st')"
  shows "tfidf_matrix st' = tfidf_matrix st \<and> cosine_sim st' = cosine_sim st \<and>
         (case fetched of
            Inl _ \<Rightarrow> st' = st
          | Inr ms \<Rightarrow> movies_df st' = Some \<lparr>movies = ms, combined_features =
                       (if ms = [] then None else Some (map feature_text ms))\<rparr>)"
proof (cases fetched)
  case (Inl x)
  with assms show ?thesis by (simp add: prepare_content_based_filtering_def)
next
  case (Inr ms)
  with assms show ?thesis
    by (auto simp: prepare_fetched split: if_splits sum.splits)
qed

theorem failed_build_state_witness:
  "tfidf_matrix (initial\<lparr>movies_df := Some \<lparr>movies = [delta], combined_features = Some [None]\<rparr>\<rparr>) = None \<and>
   cosine_sim (initial\<lparr>movies_df := Some \<lparr>movies = [delta], combined_features = Some [None]\<rparr>\<rparr>) = None"
  using failed_build_state [OF build_delta] by (simp add: initial_def)

text \<open>
  C3 as stated asks that all three pieces keep their values. On a page whose record has
  no overview the vectorization fails, and \<^verbatim>\<open>movies_df\<close>, unset before, holds the new
  frame after.
\<close>

theorem failed_build_counterexample:
  "fst (prepare_content_based_filtering (ascii_analyzer english_sample) (Inr [delta]) initial) = Inl ValueError \<and>
   movies_df (snd (prepare_content_based_filtering (ascii_analyzer english_sample) (Inr [delta]) initial))
     = Some \<lparr>movies = [delta], combined_features = Some [None]\<rparr> \<and>
   movies_df initial = None"
  by (simp add: build_delta) (simp add: initial_def)

section \<open>Missing and empty text fields\<close>

text \<open>
  C4, as the code has it. For a non-empty corpus: when every record has its overview and
  its title as strings (the empty string included), the feature text of every record is
  overview, a space, title, in input order, and the build completes exactly when the
  analyzer yields a token for some feature text; when some record has no overview or no
  title (a null cell), its feature text is missing and the build fails at the
  vectorization.
\<close>

theorem feature_text_build:
  assumes "ms \<noteq> []"
  shows "((\<forall>m\<in>set ms. overview m \<noteq> None \<and> title m \<noteq> None) \<longrightarrow>
            combine_features ms = Inr (map (\<lambda>m. Some (spec_feature_text m)) ms) \<and>
            (fst (prepare_content_based_filtering analyzer (Inr ms) st) = Inr () \<longleftrightarrow>
               (\<exists>m\<in>set ms. analyzer (spec_feature_text m) \<noteq> []))) \<and>
         ((\<exists>m\<in>set ms. overview m = None \<or> title m = None) \<longrightarrow>
            fst (prepare_content_based_filtering analyzer (Inr ms) st) = Inl ValueError)"
proof (intro conjI impI)
  assume "\<forall>m\<in>set ms. overview m \<noteq> None \<and> title m \<noteq> None"
  then show "combine_features ms = Inr (map (\<lambda>m. Some (spec_feature_text m)) ms)"
    using assms by (simp add: combine_features_def feature_text_cases)
next
  assume "\<forall>m\<in>set ms. overview m \<noteq> None \<and> title m \<noteq> None"
  then show "fst (prepare_content_based_filtering analyzer (Inr ms) st) = Inr () \<longleftrightarrow>
               (\<exists>m\<in>set ms. analyzer (spec_feature_text m) \<noteq> [])"
    by (rule fst_prepare_present)
next
  assume "\<exists>m\<in>set ms. overview m = None \<or> title m = None"
  then show "fst (prepare_content_based_filtering analyzer (Inr ms) st) = Inl ValueError"
    using fst_prepare_missing by blast
qed

theorem feature_text_build_witness:
  "combine_features [alpha, gamma] =
     Inr [Some ''a hero saves the world Alpha'', Some '' E.T.''] \<and>
   fst (prepare_content_based_filtering (ascii_analyzer english_sample) (Inr [alpha, gamma]) initial) = Inr () \<and>
   fst (prepare_content_based_filtering (ascii_analyzer english_sample) (Inr [alpha, delta]) initial) = Inl ValueError"
proof -
  have s: "spec_feature_text alpha = ''a hero saves the world Alpha''"
    "spec_feature_text gamma = '' E.T.''"
    by (simp_all add: spec_feature_text_def alpha_def gamma_def)
  have p: "overview alpha = Some ''a hero saves the world''" "title alpha = Some ''Alpha''"
    "overview gamma = Some []" "title gamma = Some ''E.T.''" "overview delta = None"
    by (simp_all add: alpha_def gamma_def delta_def)
  show ?thesis
    using feature_text_build [of "[alpha, gamma]" "ascii_analyzer english_sample" initial]
      feature_text_build [of "[alpha, delta]" "ascii_analyzer english_sample" initial]
    by (simp add: s p analyze_hero)
qed

text \<open>
  C4 as stated asks that a missing field be read as the empty string and that the build
  complete. For the record without an overview the feature text is missing, not the
  defaulted string, and the build fails.
\<close>

theorem missing_field_counterexample:
  "feature_text delta = None \<and> feature_text delta \<noteq> Some (spec_feature_text delta) \<and>
   fst (prepare_content_based_filtering (ascii_analyzer english_sample) (Inr [delta]) initial) = Inl ValueError"
  by (simp add: feature_text_delta build_delta)

section \<open>Diagonal and symmetry of the similarity matrix\<close>




section \<open>Shape of the recommendation list\<close>

text \<open>
  C6. For every built index over a corpus of size n and every movie id present in it, the
  query succeeds with a list of length min(5, n - 1), and the entry at each position
  carries the id, title, overview and poster path of the corpus record at the row index
  ranked at that position.
\<close>

theorem recommendations_shape:
  assumes "prepare_content_based_filtering analyzer (Inr ms) st0 = (Inr (), st)"
    and "movie_id \<in> id' ` set ms"
  shows "\<exists>idx K recs. find_idx ms movie_id = Inr idx \<and> cosine_sim st = Some K \<and>
           fst (get_movie_recommendations movie_id st) = Inr recs \<and>
           length recs = min 5 (length ms - 1) \<and>
           (\<forall>k<length recs.
              fst (top5 (K ! idx) ! k) < length ms \<and>
              rec_id (recs ! k) = id' (ms ! fst (top5 (K ! idx) ! k)) \<and>
              rec_title (recs ! k) = title (ms ! fst (top5 (K ! idx) ! k)) \<and>
              rec_overview (recs ! k) = overview (ms ! fst (top5 (K ! idx) ! k)) \<and>
              rec_poster_path (recs ! k) = poster_path (ms ! fst (top5 (K ! idx) ! k)))"
proof -
  from assms(1) obtain X where X: "fit_transform analyzer (map feature_text ms) = Inr X"
    and st: "st = \<lparr>movies_df = Some \<lparr>movies = ms, combined_features = Some (map feature_text ms)\<rparr>,
               tfidf_matrix = Some X, cosine_sim = Some (cosine_similarity X X)\<rparr>"
    by (auto elim!: prepare_Inr)
  have len: "length X = length ms"
    using length_fit_transform [OF X] by simp
  from assms(2) obtain idx where idx: "find_idx ms movie_id = Inr idx" "idx < length ms"
    by (rule find_idx_present)
  let ?K = "cosine_similarity X X"
  let ?row = "?K ! idx"
  have row: "length ?row = length ms"
    using idx(2) len by (simp add: length_cosine_similarity_row)
  have q: "get_movie_recommendations movie_id st =
             (Inr (map (\<lambda>p. to_dict (ms ! fst p)) (top5 ?row)), st)"
    using recommend_built [of st "\<lparr>movies = ms, combined_features = Some (map feature_text ms)\<rparr>"
        ?K movie_id idx] idx len row
    by (simp add: st length_cosine_similarity)
  let ?recs = "map (\<lambda>p. to_dict (ms ! fst p)) (top5 ?row)"
  have l: "length ?recs = min 5 (length ms - 1)"
    by (simp add: length_top5 row)
  have "\<forall>k<length ?recs. fst (top5 ?row ! k) < length ms"
    using pair_of_row [OF set_top5, of _ ?row] row by simp
  then show ?thesis
    using idx(1) q l by (simp add: st to_dict_def)
qed

theorem recommendations_shape_witness:
  "\<exists>recs. fst (get_movie_recommendations 1 (built [alpha, beta])) = Inr recs \<and>
          length recs = 1 \<and> (rec_id (recs ! 0) = 1 \<or> rec_id (recs ! 0) = 2)"
proof -
  have "1 \<in> id' ` set [alpha, beta]" by (simp add: alpha_def)
  from recommendations_shape [OF prepare_collapse [OF build_ab] this]
  obtain idx K recs where r: "fst (get_movie_recommendations 1 (built [alpha, beta])) = Inr recs"
    "length recs = min 5 (length [alpha, beta] - 1)"
    "\<forall>k<length recs.
              fst (top5 (K ! idx) ! k) < length [alpha, beta] \<and>
              rec_id (recs ! k) = id' ([alpha, beta] ! fst (top5 (K ! idx) ! k)) \<and>
              rec_title (recs ! k) = title ([alpha, beta] ! fst (top5 (K ! idx) ! k)) \<and>
              rec_overview (recs ! k) = overview ([alpha, beta] ! fst (top5 (K ! idx) ! k)) \<and>
              rec_poster_path (recs ! k) = poster_path ([alpha, beta] ! fst (top5 (K ! idx) ! k))"
    by blast
  have l: "length recs = 1" using r(2) by simp
  define i where "i = fst (top5 (K ! idx) ! 0)"
  have "i < 2" and "rec_id (recs ! 0) = id' ([alpha, beta] ! i)"
    using r(3) l by (simp_all add: i_def)
  then have "rec_id (recs ! 0) = 1 \<or> rec_id (recs ! 0) = 2"
    by (cases i) (auto simp: alpha_def beta_def less_Suc_eq numeral_2_eq_2)
  then show ?thesis using r(1) l by simp
qed

section \<open>A query before the index is built\<close>

text \<open>
  C7, as the code has it. In every state without a built index (\<^verbatim>\<open>cosine_sim\<close> still
  unset) a query returns at once with the handler's generic failure, status 500 with the
  text of the exception raised on the unset cache, a \<^verbatim>\<open>TypeError\<close> when nothing was
  fetched; the cache is unchanged.
\<close>

theorem unbuilt_query_fails:
  assumes "cosine_sim st = None"
  shows "\<exists>e. get_movie_recommendations movie_id st = (Inl (HTTPException 500 e), st) \<and>
             (movies_df st = None \<longrightarrow> e = TypeError)"
  using assms by (rule query_unbuilt)

theorem unbuilt_query_fails_witness:
  "get_movie_recommendations 1 initial = (Inl (HTTPException 500 TypeError), initial)"
  using unbuilt_query_fails [of initial 1] by (auto simp: initial_def)

text \<open>
  C7 as stated asks for a FailedPrecondition condition rather than an unclassified
  failure. In the initial state the query gets status 500, the generic failure.
\<close>

theorem unbuilt_query_counterexample:
  "fst (get_movie_recommendations 1 initial) = Inl (HTTPException 500 TypeError) \<and>
   generic_failure (fst (get_movie_recommendations 1 initial))"
  by (simp add: get_movie_recommendations_def recommend_def initial_def)

section \<open>Order of the ranked candidates\<close>

text \<open>
  C8. In the sorted list of (row index, score) pairs, and in the slice of it that is
  returned, every entry is a pair of the similarity row; of two entries with equal scores
  the one with the lower row index comes first, and entries with distinct scores come in
  strictly descending score order.
\<close>

theorem ranking_order:
  assumes "L = ranked row \<or> L = top5 row" and "p < q" and "q < length L"
  shows "fst (L ! p) < length row \<and> snd (L ! p) = row ! fst (L ! p) \<and>
         (snd (L ! p) = snd (L ! q) \<longrightarrow> fst (L ! p) < fst (L ! q)) \<and>
         (snd (L ! p) \<noteq> snd (L ! q) \<longrightarrow> snd (L ! q) < snd (L ! p))"
proof -
  have sub: "set L \<subseteq> set (enumerate 0 row)"
    using assms(1) set_top5 [of row] by (auto simp: set_ranked)
  have "sorted_wrt (\<lambda>a b. snd b < snd a \<or> (snd a = snd b \<and> fst a < fst b)) L"
    using assms(1) sorted_wrt_ranked sorted_wrt_top5 by auto
  then have "snd (L ! q) < snd (L ! p) \<or> (snd (L ! p) = snd (L ! q) \<and> fst (L ! p) < fst (L ! q))"
    using assms(2,3) by (simp add: sorted_wrt_iff_nth_less)
  moreover have "fst (L ! p) < length row \<and> snd (L ! p) = row ! fst (L ! p)"
    using pair_of_row [OF sub] assms(2,3) by simp
  ultimately show ?thesis by auto
qed

theorem ranking_order_witness:
  "fst (ranked [1, 1/2, 1, 1/5] ! 0) < fst (ranked [1, 1/2, 1, 1/5] ! 1) \<and>
   snd (ranked [1, 1/2, 1, 1/5] ! 2) < snd (ranked [1, 1/2, 1, 1/5] ! 1)"
proof -
  have r: "ranked [1, 1/2, 1, 1/5] = [(0, 1), (2, 1), (1, 1/2), (3, 1/5)]"
    by (simp add: ranked_def sorted_reverse_def enumerate_eq_zip upt_rec)
  show ?thesis
    using ranking_order [of "ranked [1, 1/2, 1, 1/5]" "[1, 1/2, 1, 1/5]" 0 1]
      ranking_order [of "ranked [1, 1/2, 1, 1/5]" "[1, 1/2, 1, 1/5]" 1 2]
    by (simp add: r)
qed

section \<open>A corpus of one movie\<close>




section \<open>The query leaves the cache alone\<close>

text \<open>
  C10. A recommendation query is read-only. In every well-formed memory and for every
  movie id, whether the query succeeds or fails: the three globals hold the references
  they held, every object that was in memory is unchanged at its address (the query only
  adds objects of its own), so the cache read through the globals is the cache as it was;
  the answer is the answer of the query seen as a function of that cache; and the same
  query asked again gives the same answer.
\<close>

theorem query_read_only:
  assumes "well_formed s" and "s' = snd (get_movie_recommendations_in_memory movie_id s)"
  shows "movies_df_ref s' = movies_df_ref s \<and> tfidf_matrix_ref s' = tfidf_matrix_ref s \<and>
         cosine_sim_ref s' = cosine_sim_ref s \<and>
         (\<forall>a<length (objects s). objects s' ! a = objects s ! a) \<and>
         cache_of s' = cache_of s \<and>
         fst (get_movie_recommendations_in_memory movie_id s) =
           fst (get_movie_recommendations movie_id (cache_of s)) \<and>
         fst (get_movie_recommendations_in_memory movie_id s') =
           fst (get_movie_recommendations_in_memory movie_id s)"
proof -
  have e: "extends s s'"
    unfolding assms(2) by (rule extends_query)
  have c: "cache_of s' = cache_of s" "well_formed s'"
    using cache_of_extends [OF assms(1) e] by simp_all
  have "fst (get_movie_recommendations_in_memory movie_id s') =
          fst (get_movie_recommendations movie_id (cache_of s'))"
    using c(2) by (rule refines_query)
  also have "\<dots> = fst (get_movie_recommendations_in_memory movie_id s)"
    using refines_query [OF assms(1), of movie_id] by (simp add: c(1))
  finally have again: "fst (get_movie_recommendations_in_memory movie_id s') =
          fst (get_movie_recommendations_in_memory movie_id s)" .
  have "\<forall>a<length (objects s). objects s' ! a = objects s ! a"
    using extends_nth [OF e] by simp
  then show ?thesis
    using e c(1) again refines_query [OF assms(1), of movie_id] by (simp add: extends_def)
qed

theorem query_read_only_witness:
  "cache_of (snd (get_movie_recommendations_in_memory 2 (memory_of (built [alpha, beta]))))
     = built [alpha, beta] \<and>
   fst (get_movie_recommendations_in_memory 2 (memory_of (built [alpha, beta])))
     = fst (get_movie_recommendations 2 (built [alpha, beta])) \<and>
   fst (get_movie_recommendations_in_memory 2
          (snd (get_movie_recommendations_in_memory 2 (memory_of (built [alpha, beta])))))
     = fst (get_movie_recommendations_in_memory 2 (memory_of (built [alpha, beta])))"
  using query_read_only [OF well_formed_memory_of refl, of 2 "built [alpha, beta]"]
  by (simp add: cache_of_memory_of)

end
